theory Spec2Isabelle
  imports Complex_Main "HOL-Library.Word" "HOL-Library.Log_Nat"
begin

section \<open>Go strings and UTF-8\<close>

text \<open>
  A Go \<^verbatim>\<open>string\<close> is a sequence of bytes: \<^verbatim>\<open>len(expr)\<close>, \<^verbatim>\<open>expr[i]\<close>, \<^verbatim>\<open>expr[:i]\<close> and
  \<^verbatim>\<open>strings.Index\<close> all count bytes. It is modelled as a \<^typ>\<open>string\<close>, whose
  \<^typ>\<open>char\<close>s are the bytes; \<open>byte c\<close> is the numeric value of one.

  \<^verbatim>\<open>regexp\<close> and \<^verbatim>\<open>strings.TrimSpace\<close> read the bytes as UTF-8 instead. \<open>DecodeRuneInString\<close>
  follows \<^verbatim>\<open>utf8.DecodeRuneInString\<close>: it returns the first code point and its width in
  bytes, and \<open>(RuneError, 1)\<close> at a byte that starts no well-formed encoding.
\<close>

definition byte :: "char \<Rightarrow> nat" where
  "byte c = of_char c"

definition RuneError :: nat where
  "RuneError = 0xFFFD"

fun DecodeRuneInString :: "string \<Rightarrow> nat \<times> nat" where
  "DecodeRuneInString [] = (RuneError, 0)"
| "DecodeRuneInString (c0 # s) =
    (let s0 = byte c0 in
     if s0 < 0x80 then (s0, 1)
     else if s0 < 0xC2 \<or> 0xF4 < s0 then (RuneError, 1)
     else
       let sz = (if s0 < 0xE0 then 2 else if s0 < 0xF0 then 3 else 4 :: nat);
           lo = (if s0 = 0xE0 then 0xA0 else if s0 = 0xF0 then 0x90 else 0x80 :: nat);
           hi = (if s0 = 0xED then 0x9F else if s0 = 0xF4 then 0x8F else 0xBF :: nat)
       in
       if length (c0 # s) < sz then (RuneError, 1)
       else
         let s1 = byte (s ! 0) in
         if s1 < lo \<or> hi < s1 then (RuneError, 1)
         else if sz \<le> 2 then ((s0 mod 0x20) * 0x40 + s1 mod 0x40, 2)
         else
           let s2 = byte (s ! 1) in
           if s2 < 0x80 \<or> 0xBF < s2 then (RuneError, 1)
           else if sz \<le> 3 then
             ((s0 mod 0x10) * 0x1000 + (s1 mod 0x40) * 0x40 + s2 mod 0x40, 3)
           else
             let s3 = byte (s ! 2) in
             if s3 < 0x80 \<or> 0xBF < s3 then (RuneError, 1)
             else ((s0 mod 8) * 0x40000 + (s1 mod 0x40) * 0x1000
                     + (s2 mod 0x40) * 0x40 + s3 mod 0x40, 4))"

text \<open>
  The code points of a string, read front to back as \<^verbatim>\<open>range\<close> over a string, the regexp
  engine and \<^verbatim>\<open>utf8.RuneCountInString\<close> do: each ill-formed byte counts as one \<open>RuneError\<close>.
\<close>

function runes :: "string \<Rightarrow> nat list" where
  "runes [] = []"
| "runes (c # s) =
    (case DecodeRuneInString (c # s) of (r, w) \<Rightarrow> r # runes (drop (w - 1) s))"
  by pat_completeness auto
termination
  by (relation "measure length") auto

definition RuneCountInString :: "string \<Rightarrow> nat" where
  "RuneCountInString s = length (runes s)"

text \<open>
  \<^verbatim>\<open>utf8.ValidString\<close>: no byte of the string is ill-formed. The decoder reports an
  ill-formed byte as \<open>RuneError\<close> of width 1 (the well-formed encoding of U+FFFD is three
  bytes wide).
\<close>

function ValidString :: "string \<Rightarrow> bool" where
  "ValidString [] = True"
| "ValidString (c # s) =
    (case DecodeRuneInString (c # s) of (r, w) \<Rightarrow>
       \<not> (r = RuneError \<and> w = 1) \<and> ValidString (drop (w - 1) s))"
  by pat_completeness auto
termination
  by (relation "measure length") auto

text \<open>
  \<^verbatim>\<open>unicode.IsSpace\<close>: the white space of Unicode, which is what \<^verbatim>\<open>strings.TrimSpace\<close>
  removes at both ends. \<^verbatim>\<open>strings.TrimSpace(s) == ""\<close> holds exactly when every code
  point of \<open>s\<close> is white space.
\<close>

definition IsSpace :: "nat \<Rightarrow> bool" where
  "IsSpace r =
     (r = 0x09 \<or> r = 0x0A \<or> r = 0x0B \<or> r = 0x0C \<or> r = 0x0D \<or> r = 0x20 \<or>
      r = 0x85 \<or> r = 0xA0 \<or> r = 0x1680 \<or> (0x2000 \<le> r \<and> r \<le> 0x200A) \<or>
      r = 0x2028 \<or> r = 0x2029 \<or> r = 0x202F \<or> r = 0x205F \<or> r = 0x3000)"

definition TrimSpace_is_empty :: "string \<Rightarrow> bool" where
  "TrimSpace_is_empty s = list_all IsSpace (runes s)"

section \<open>Errors\<close>

text \<open>
  The errors of the calculator are \<^verbatim>\<open>fmt.Errorf\<close> values; the model names them by kind.
  Both zero-divisor messages (of \<^verbatim>\<open>/\<close>, \<^verbatim>\<open>\<div>\<close> and of \<^verbatim>\<open>%\<close>) are \<open>DivisionByZero\<close>;
  \<open>UnsupportedOperator\<close> carries the operator that the message prints. A Go \<^verbatim>\<open>error\<close>
  is an \<^typ>\<open>'a option\<close>: \<open>None\<close> is \<^verbatim>\<open>nil\<close>.
\<close>

datatype error =
    TooLong
  | Empty
  | InvalidCharacters
  | NoOperatorFound
  | UnsupportedOperator string
  | DivisionByZero
  | ResultTooLarge
  | ResultNotANumber

section \<open>float64\<close>

text \<open>
  A \<^verbatim>\<open>float64\<close> is an IEEE 754 binary64 value: a NaN, an infinity with its sign bit, or
  a finite number \<open>Finite s m\<close> of sign bit \<open>s\<close> (set for negative numbers and for
  \<open>-0\<close>) and magnitude \<open>m \<ge> 0\<close>, a rational that binary64 represents exactly.
\<close>

datatype float64 = NaN | Infinite bool | Finite bool rat

definition zero64 :: float64 where
  "zero64 = Finite False 0"

definition one64 :: float64 where
  "one64 = Finite False 1"

subsection \<open>Rounding to nearest, ties to even\<close>

definition pow2 :: "int \<Rightarrow> rat" where
  "pow2 k = (if 0 \<le> k then 2 ^ nat k else 1 / 2 ^ nat (- k))"

text \<open>
  \<open>ilog2 q\<close> is the binary exponent of a positive rational: \<open>2 ^ ilog2 q \<le> q < 2 ^ (ilog2 q + 1)\<close>.
  It is computed from bit lengths (\<open>floorlog 2 n\<close> is the number of bits of \<open>n\<close>).
\<close>

definition ilog2 :: "rat \<Rightarrow> int" where
  "ilog2 q = (if 1 \<le> q then int (floorlog 2 (nat \<lfloor>q\<rfloor>)) - 1
              else - int (floorlog 2 (nat (\<lceil>1 / q\<rceil> - 1))))"

definition roundHalfEven :: "rat \<Rightarrow> int" where
  "roundHalfEven q =
     (let f = \<lfloor>q\<rfloor>; r = q - of_int f
      in if r < 1 / 2 then f else if 1 / 2 < r then f + 1 else if even f then f else f + 1)"

text \<open>
  \<open>round64 s q\<close> is the binary64 value nearest to the magnitude \<open>q \<ge> 0\<close>, with sign bit
  \<open>s\<close>: 53 significant bits, exponents from \<open>-1022\<close> (below it the spacing of the subnormal
  numbers stays \<open>2 ^ -1074\<close>), ties to the even significand, and an infinity when the
  rounded magnitude reaches \<open>2 ^ 1024\<close>.
\<close>

definition round64 :: "bool \<Rightarrow> rat \<Rightarrow> float64" where
  "round64 s q =
     (if q = 0 then Finite s 0
      else
        let e = max (ilog2 q) (- 1022);
            ulp = pow2 (e - 52);
            m = of_int (roundHalfEven (q / ulp)) * ulp
        in if pow2 1024 \<le> m then Infinite s else Finite s m)"

subsection \<open>Comparisons and arithmetic\<close>

definition isNaN :: "float64 \<Rightarrow> bool" where
  "isNaN f = (f = NaN)"

text \<open>\<^verbatim>\<open>math.IsInf(f, 0)\<close>: an infinity of either sign.\<close>

definition isInf :: "float64 \<Rightarrow> bool" where
  "isInf f = (case f of Infinite s \<Rightarrow> True | _ \<Rightarrow> False)"

text \<open>\<^verbatim>\<open>f == 0\<close>, which holds of both zeros.\<close>

definition isZero :: "float64 \<Rightarrow> bool" where
  "isZero f = (case f of Finite s m \<Rightarrow> m = 0 | _ \<Rightarrow> False)"

definition Signbit :: "float64 \<Rightarrow> bool" where
  "Signbit f = (case f of Finite s m \<Rightarrow> s | Infinite s \<Rightarrow> s | NaN \<Rightarrow> False)"

definition signed :: "bool \<Rightarrow> rat \<Rightarrow> rat" where
  "signed s m = (if s then - m else m)"

text \<open>\<^verbatim>\<open>x == y\<close> on floats: a NaN equals nothing, and \<open>-0 == +0\<close>.\<close>

fun feq :: "float64 \<Rightarrow> float64 \<Rightarrow> bool" where
  "feq (Finite s m) (Finite t n) = (signed s m = signed t n)"
| "feq (Infinite s) (Infinite t) = (s = t)"
| "feq _ _ = False"

text \<open>\<^verbatim>\<open>x < y\<close> on floats: false when either side is a NaN.\<close>

fun flt :: "float64 \<Rightarrow> float64 \<Rightarrow> bool" where
  "flt NaN _ = False"
| "flt _ NaN = False"
| "flt (Finite s m) (Finite t n) = (signed s m < signed t n)"
| "flt (Infinite s) (Infinite t) = (s \<and> \<not> t)"
| "flt (Infinite s) (Finite t n) = s"
| "flt (Finite s m) (Infinite t) = (\<not> t)"

fun fneg :: "float64 \<Rightarrow> float64" where
  "fneg NaN = NaN"
| "fneg (Infinite s) = Infinite (\<not> s)"
| "fneg (Finite s m) = Finite (\<not> s) m"

text \<open>
  \<^verbatim>\<open>a + b\<close>. An exact sum of zero is \<open>+0\<close>, unless both operands are \<open>-0\<close>.
\<close>

fun fadd :: "float64 \<Rightarrow> float64 \<Rightarrow> float64" where
  "fadd NaN _ = NaN"
| "fadd _ NaN = NaN"
| "fadd (Infinite s) (Infinite t) = (if s = t then Infinite s else NaN)"
| "fadd (Infinite s) (Finite t n) = Infinite s"
| "fadd (Finite s m) (Infinite t) = Infinite t"
| "fadd (Finite s m) (Finite t n) =
     (let q = signed s m + signed t n
      in if q = 0 then Finite (s \<and> t \<and> m = 0 \<and> n = 0) 0 else round64 (q < 0) \<bar>q\<bar>)"

text \<open>\<^verbatim>\<open>a - b\<close>, which IEEE 754 defines as \<open>a + (-b)\<close>.\<close>

definition fsub :: "float64 \<Rightarrow> float64 \<Rightarrow> float64" where
  "fsub a b = fadd a (fneg b)"

fun fmul :: "float64 \<Rightarrow> float64 \<Rightarrow> float64" where
  "fmul NaN _ = NaN"
| "fmul _ NaN = NaN"
| "fmul (Infinite s) (Infinite t) = Infinite (s \<noteq> t)"
| "fmul (Infinite s) (Finite t n) = (if n = 0 then NaN else Infinite (s \<noteq> t))"
| "fmul (Finite s m) (Infinite t) = (if m = 0 then NaN else Infinite (s \<noteq> t))"
| "fmul (Finite s m) (Finite t n) = round64 (s \<noteq> t) (m * n)"

fun fdiv :: "float64 \<Rightarrow> float64 \<Rightarrow> float64" where
  "fdiv NaN _ = NaN"
| "fdiv _ NaN = NaN"
| "fdiv (Infinite s) (Infinite t) = NaN"
| "fdiv (Infinite s) (Finite t n) = Infinite (s \<noteq> t)"
| "fdiv (Finite s m) (Infinite t) = Finite (s \<noteq> t) 0"
| "fdiv (Finite s m) (Finite t n) =
     (if n = 0 then (if m = 0 then NaN else Infinite (s \<noteq> t))
      else round64 (s \<noteq> t) (m / n))"

text \<open>
  \<^verbatim>\<open>math.Mod(x, y)\<close>: the remainder of \<open>x / y\<close> truncated towards zero; it has the sign
  of \<open>x\<close> and a magnitude below that of \<open>y\<close>, and is computed without rounding error.
  \<open>Mod(\<plusminus>Inf, y)\<close>, \<open>Mod(NaN, y)\<close>, \<open>Mod(x, 0)\<close> and \<open>Mod(x, NaN)\<close> are NaN, and
  \<open>Mod(x, \<plusminus>Inf) = x\<close>.
\<close>

fun Mod :: "float64 \<Rightarrow> float64 \<Rightarrow> float64" where
  "Mod NaN _ = NaN"
| "Mod _ NaN = NaN"
| "Mod (Infinite s) _ = NaN"
| "Mod (Finite s m) (Infinite t) = Finite s m"
| "Mod (Finite s m) (Finite t n) =
     (if n = 0 then NaN else Finite s (m - of_int \<lfloor>m / n\<rfloor> * n))"

subsection \<open>What the model leaves to the Go runtime\<close>

text \<open>
  Four library behaviours are parameters of the model rather than definitions:
  \<^item> \<open>ParseFloat_literal\<close>: \<^verbatim>\<open>strconv.ParseFloat(s, 64)\<close> on a string that holds an ASCII
    letter or an underscore (exponents, hexadecimal floats, \<^verbatim>\<open>inf\<close>, \<^verbatim>\<open>nan\<close>, digit
    separators); \<open>None\<close> is a non-nil error.
  \<^item> \<open>Pow_general\<close>: \<^verbatim>\<open>math.Pow(x, y)\<close> outside the special cases that \<open>Pow\<close> below spells out.
  \<^item> \<open>int64_out_of_range\<close>: the value of the conversion \<^verbatim>\<open>int64(f)\<close> when \<open>f\<close> is a NaN,
    an infinity or outside the range of \<^verbatim>\<open>int64\<close>. The Go specification leaves it to the
    implementation.
  \<^item> \<open>Sprintf_6g\<close>: \<^verbatim>\<open>fmt.Sprintf("%.6g", f)\<close>.
\<close>

record runtime =
  ParseFloat_literal :: "string \<Rightarrow> float64 option"
  Pow_general :: "float64 \<Rightarrow> float64 \<Rightarrow> float64"
  int64_out_of_range :: "float64 \<Rightarrow> 64 word"
  Sprintf_6g :: "float64 \<Rightarrow> string"

subsection \<open>math.Pow\<close>

definition isInt :: "float64 \<Rightarrow> bool" where
  "isInt f = (case f of Finite s m \<Rightarrow> of_int \<lfloor>m\<rfloor> = m | _ \<Rightarrow> False)"

definition isOddInt :: "float64 \<Rightarrow> bool" where
  "isOddInt f = (case f of Finite s m \<Rightarrow> of_int \<lfloor>m\<rfloor> = m \<and> odd \<lfloor>m\<rfloor> | _ \<Rightarrow> False)"

text \<open>
  The special cases of \<^verbatim>\<open>math.Pow\<close> that involve no infinite argument, in the order of
  its \<^verbatim>\<open>switch\<close>: \<open>Pow(x, \<plusminus>0) = 1\<close>, \<open>Pow(1, y) = 1\<close>, \<open>Pow(x, 1) = x\<close>, NaN for a NaN
  argument, the powers of \<open>\<plusminus>0\<close>, and NaN for a finite \<open>x < 0\<close> with a finite non-integer
  \<open>y\<close>.
\<close>

definition Pow :: "runtime \<Rightarrow> float64 \<Rightarrow> float64 \<Rightarrow> float64" where
  "Pow rt x y =
     (if isZero y \<or> feq x one64 then one64
      else if feq y one64 then x
      else if isNaN x \<or> isNaN y then NaN
      else if isZero x \<and> flt y zero64 then
        (if Signbit x \<and> isOddInt y then Infinite True else Infinite False)
      else if isZero x \<and> flt zero64 y then
        (if Signbit x \<and> isOddInt y then x else zero64)
      else if \<not> isInf x \<and> \<not> isInf y \<and> flt x zero64 \<and> \<not> isInt y then NaN
      else Pow_general rt x y)"

subsection \<open>Conversions\<close>

text \<open>
  \<^verbatim>\<open>int64(f)\<close> discards the fraction of \<open>f\<close> (truncation towards zero) when the result
  fits 64 bits, and \<^verbatim>\<open>float64(i)\<close> rounds an integer to the nearest \<^verbatim>\<open>float64\<close>.
\<close>

definition int64_of_float64 :: "runtime \<Rightarrow> float64 \<Rightarrow> 64 word" where
  "int64_of_float64 rt f =
     (case f of
        Finite s m \<Rightarrow>
          (let t = (if s then - \<lfloor>m\<rfloor> else \<lfloor>m\<rfloor>)
           in if - (2 ^ 63) \<le> t \<and> t < 2 ^ 63 then word_of_int t else int64_out_of_range rt f)
      | _ \<Rightarrow> int64_out_of_range rt f)"

definition float64_of_int64 :: "64 word \<Rightarrow> float64" where
  "float64_of_int64 w = round64 (sint w < 0) (of_int \<bar>sint w\<bar>)"

subsection \<open>Formatting with \<^verbatim>\<open>%.0f\<close>\<close>

fun digits10 :: "nat \<Rightarrow> string" where
  "digits10 n =
     (if n < 10 then [''0123456789'' ! n]
      else digits10 (n div 10) @ [''0123456789'' ! (n mod 10)])"

declare digits10.simps [simp del]

text \<open>
  \<^verbatim>\<open>fmt.Sprintf("%.0f", f)\<close>: the magnitude rounded to an integer (ties to even) in
  decimal digits, after a minus sign when the sign bit is set.
\<close>

definition Sprintf_0f :: "float64 \<Rightarrow> string" where
  "Sprintf_0f f =
     (case f of
        NaN \<Rightarrow> ''NaN''
      | Infinite s \<Rightarrow> (if s then ''-Inf'' else ''+Inf'')
      | Finite s m \<Rightarrow> (if s then ''-'' else '''') @ digits10 (nat (roundHalfEven m)))"

subsection \<open>strconv.ParseFloat\<close>

definition isDigit :: "char \<Rightarrow> bool" where
  "isDigit c = (0x30 \<le> byte c \<and> byte c \<le> 0x39)"

definition isLetter :: "char \<Rightarrow> bool" where
  "isLetter c = ((0x41 \<le> byte c \<and> byte c \<le> 0x5A) \<or> (0x61 \<le> byte c \<and> byte c \<le> 0x7A))"

definition digitsVal :: "string \<Rightarrow> nat" where
  "digitsVal ds = foldl (\<lambda>n c. 10 * n + (byte c - 0x30)) 0 ds"

text \<open>
  A string with no letter and no underscore is accepted by \<^verbatim>\<open>strconv.ParseFloat\<close> exactly
  when it is an optional sign, then digits with at most one decimal point among them and
  at least one digit. The result is the nearest \<^verbatim>\<open>float64\<close>; a literal that rounds to an
  infinity is a range error.
\<close>

definition parseDecimal :: "string \<Rightarrow> float64 option" where
  "parseDecimal s =
     (let (neg, body) =
            (case s of
               [] \<Rightarrow> (False, [])
             | c # t \<Rightarrow>
                 if c = CHR ''+'' then (False, t)
                 else if c = CHR ''-'' then (True, t)
                 else (False, s));
          ip = takeWhile isDigit body;
          rest = dropWhile isDigit body;
          (fp, tail) =
            (case rest of
               [] \<Rightarrow> ([], [])
             | c # t \<Rightarrow>
                 if c = CHR ''.'' then (takeWhile isDigit t, dropWhile isDigit t)
                 else ([], rest))
      in if tail \<noteq> [] \<or> (ip = [] \<and> fp = []) then None
         else
           (case round64 neg (of_nat (digitsVal (ip @ fp)) / 10 ^ length fp) of
              Finite sg m \<Rightarrow> Some (Finite sg m)
            | _ \<Rightarrow> None))"

definition ParseFloat :: "runtime \<Rightarrow> string \<Rightarrow> float64 option" where
  "ParseFloat rt s =
     (if list_ex (\<lambda>c. isLetter c \<or> c = CHR ''_'') s then ParseFloat_literal rt s
      else parseDecimal s)"

section \<open>Validation\<close>

definition maxExpressionLength :: nat where
  "maxExpressionLength = 100"

text \<open>
  The character class of \<^verbatim>\<open>^[0-9+\-*/\<times>\<div>^%().\s]+$\<close>. In Go's regexp syntax \<^verbatim>\<open>\s\<close> is
  \<^verbatim>\<open>[\t\n\f\r ]\<close>; \<^verbatim>\<open>\<times>\<close> is U+00D7 and \<^verbatim>\<open>\<div>\<close> is U+00F7.
\<close>

definition validChar :: "nat \<Rightarrow> bool" where
  "validChar r =
     ((0x30 \<le> r \<and> r \<le> 0x39) \<or> r = 0x2B \<or> r = 0x2D \<or> r = 0x2A \<or> r = 0x2F \<or>
      r = 0xD7 \<or> r = 0xF7 \<or> r = 0x5E \<or> r = 0x25 \<or> r = 0x28 \<or> r = 0x29 \<or> r = 0x2E \<or>
      r = 0x09 \<or> r = 0x0A \<or> r = 0x0C \<or> r = 0x0D \<or> r = 0x20)"

text \<open>
  \<^verbatim>\<open>validChars.MatchString(expr)\<close>: the pattern is anchored at both ends (without the
  \<^verbatim>\<open>m\<close> flag \<^verbatim>\<open>$\<close> is the end of the text), so it matches when the string has at least
  one code point and all of them are in the class.
\<close>

definition validChars_MatchString :: "string \<Rightarrow> bool" where
  "validChars_MatchString s = (runes s \<noteq> [] \<and> list_all validChar (runes s))"

definition validateExpression :: "string \<Rightarrow> error option" where
  "validateExpression expr =
     (if length expr > maxExpressionLength then Some TooLong
      else if TrimSpace_is_empty expr then Some Empty
      else if \<not> validChars_MatchString expr then Some InvalidCharacters
      else None)"

section \<open>The calculator\<close>

text \<open>
  \<open>supportedOps\<close> is the operation table: a Go map from the operator's string to a
  function that returns a number and an error.
\<close>

record Calculator =
  supportedOps :: "string \<rightharpoonup> (float64 \<Rightarrow> float64 \<Rightarrow> float64 \<times> error option)"

text \<open>The UTF-8 encodings of the multiplication sign U+00D7 and the division sign U+00F7.\<close>

definition times_sign :: string where
  "times_sign = [CHR 0xC3, CHR 0x97]"

definition division_sign :: string where
  "division_sign = [CHR 0xC3, CHR 0xB7]"

definition NewCalculator :: "runtime \<Rightarrow> Calculator" where
  "NewCalculator rt =
     \<lparr>supportedOps = map_of
        [(''+'', \<lambda>a b. (fadd a b, None)),
         (''-'', \<lambda>a b. (fsub a b, None)),
         (''*'', \<lambda>a b. (fmul a b, None)),
         (times_sign, \<lambda>a b. (fmul a b, None)),
         (''/'', \<lambda>a b. if isZero b then (zero64, Some DivisionByZero) else (fdiv a b, None)),
         (division_sign,
            \<lambda>a b. if isZero b then (zero64, Some DivisionByZero) else (fdiv a b, None)),
         (''^'', \<lambda>a b. (Pow rt a b, None)),
         (''**'', \<lambda>a b. (Pow rt a b, None)),
         (''%'', \<lambda>a b. if isZero b then (zero64, Some DivisionByZero) else (Mod a b, None))]\<rparr>"

subsection \<open>parseExpression\<close>

text \<open>\<^verbatim>\<open>strings.ReplaceAll(expr, " ", "")\<close> deletes every space byte.\<close>

definition remove_spaces :: "string \<Rightarrow> string" where
  "remove_spaces expr = filter (\<lambda>c. c \<noteq> CHR '' '') expr"

text \<open>
  \<^verbatim>\<open>strings.Index(s, sep)\<close>: the byte index of the first occurrence of \<open>sep\<close> in \<open>s\<close>, or
  \<open>-1\<close>.
\<close>

fun Index :: "string \<Rightarrow> string \<Rightarrow> int" where
  "Index [] sep = (if sep = [] then 0 else - 1)"
| "Index (c # s) sep =
     (if take (length sep) (c # s) = sep then 0
      else let i = Index s sep in if i < 0 then - 1 else i + 1)"

definition operators :: "string list" where
  "operators =
     [''**'', division_sign, times_sign, ''^'', ''%'', ''/'', ''*'', ''+'', ''-'']"

text \<open>
  The conversion \<^verbatim>\<open>string(expr[i])\<close> of a byte to a string: the UTF-8 encoding of the code
  point with the byte's value, which is the byte itself below \<open>0x80\<close> and two bytes from
  there on.
\<close>

definition string_of_byte :: "char \<Rightarrow> string" where
  "string_of_byte c =
     (if byte c < 0x80 then [c]
      else [char_of (0xC0 + byte c div 0x40), char_of (0x80 + byte c mod 0x40)])"

text \<open>
  The body of the inner loop for \<^verbatim>\<open>+\<close> and \<^verbatim>\<open>-\<close> at position \<open>i\<close>: it returns the two
  operands when the byte at \<open>i\<close> is the operator, the byte before it is a digit or a
  closing parenthesis, the right side is not empty and both sides parse. \<open>None\<close> when the
  loop goes on.
\<close>

definition signAt :: "runtime \<Rightarrow> string \<Rightarrow> string \<Rightarrow> nat \<Rightarrow> (float64 \<times> float64) option" where
  "signAt rt expr op i =
     (if string_of_byte (expr ! i) = op then
        (let prevChar = expr ! (i - 1) in
         if isDigit prevChar \<or> prevChar = CHR '')'' then
           (let left = take i expr; right = drop (i + 1) expr in
            if right \<noteq> [] then
              (case (ParseFloat rt left, ParseFloat rt right) of
                 (Some a, Some b) \<Rightarrow> Some (a, b)
               | _ \<Rightarrow> None)
            else None)
         else None)
      else None)"

text \<open>The loop \<^verbatim>\<open>for i := 1; i < len(expr); i++\<close>, from \<open>i\<close> on.\<close>

function signLoop :: "runtime \<Rightarrow> string \<Rightarrow> string \<Rightarrow> nat \<Rightarrow> (float64 \<times> float64) option" where
  "signLoop rt expr op i =
     (if i < length expr then
        (case signAt rt expr op i of
           Some ab \<Rightarrow> Some ab
         | None \<Rightarrow> signLoop rt expr op (i + 1))
      else None)"
  by pat_completeness auto
termination
  by (relation "measure (\<lambda>(rt, expr, op, i). length expr - i)") auto

declare signLoop.simps [simp del]

text \<open>
  The branch of the other operators: the first occurrence of the operator, when it is not
  at the start, the right side is not empty and both sides parse.
\<close>

definition splitAt :: "runtime \<Rightarrow> string \<Rightarrow> string \<Rightarrow> (float64 \<times> float64) option" where
  "splitAt rt expr op =
     (let idx = Index expr op in
      if idx > 0 then
        (let left = take (nat idx) expr; right = drop (nat idx + length op) expr in
         if right \<noteq> [] then
           (case (ParseFloat rt left, ParseFloat rt right) of
              (Some a, Some b) \<Rightarrow> Some (a, b)
            | _ \<Rightarrow> None)
         else None)
      else None)"

text \<open>The loop over the operators, which returns at the first one that splits.\<close>

fun opLoop :: "runtime \<Rightarrow> string \<Rightarrow> string list \<Rightarrow> float64 \<times> string \<times> float64 \<times> error option" where
  "opLoop rt expr [] = (zero64, '''', zero64, Some NoOperatorFound)"
| "opLoop rt expr (op # ops) =
     (case (if op = ''-'' \<or> op = ''+'' then signLoop rt expr op 1 else splitAt rt expr op) of
        Some (a, b) \<Rightarrow> (a, op, b, None)
      | None \<Rightarrow> opLoop rt expr ops)"

definition parseExpression :: "runtime \<Rightarrow> string \<Rightarrow> float64 \<times> string \<times> float64 \<times> error option" where
  "parseExpression rt expr = opLoop rt (remove_spaces expr) operators"

subsection \<open>Calculate\<close>

definition Calculate :: "runtime \<Rightarrow> Calculator \<Rightarrow> string \<Rightarrow> string \<times> error option" where
  "Calculate rt c expr =
     (case validateExpression expr of
        Some err \<Rightarrow> ('''', Some err)
      | None \<Rightarrow>
          (case parseExpression rt expr of
             (a, op, b, Some err) \<Rightarrow> ('''', Some err)
           | (a, op, b, None) \<Rightarrow>
               (case supportedOps c op of
                  None \<Rightarrow> ('''', Some (UnsupportedOperator op))
                | Some opFunc \<Rightarrow>
                    (case opFunc a b of
                       (result, Some err) \<Rightarrow> ('''', Some err)
                     | (result, None) \<Rightarrow>
                         if isInf result then ('''', Some ResultTooLarge)
                         else if isNaN result then ('''', Some ResultNotANumber)
                         else if feq result (float64_of_int64 (int64_of_float64 rt result))
                           then (Sprintf_0f result, None)
                         else (Sprintf_6g rt result, None)))))"

section \<open>Evaluating the model on concrete inputs\<close>

text \<open>
  A runtime for closed examples. Its conversion of out-of-range floats is the one of
  amd64, where the instruction yields the smallest \<^verbatim>\<open>int64\<close>; the other three fields are
  arbitrary, and no example below depends on their values.
\<close>

definition example_runtime :: runtime where
  "example_runtime =
     \<lparr>ParseFloat_literal = (\<lambda>s. None),
      Pow_general = (\<lambda>x y. NaN),
      int64_out_of_range = (\<lambda>f. 0x8000000000000000),
      Sprintf_6g = (\<lambda>f. ''?'')\<rparr>"

section \<open>Notions of the specification\<close>

text \<open>
  The values of the model that are \<^verbatim>\<open>float64\<close> values: a finite one has a magnitude that
  binary64 represents, which is to say that rounding leaves it as it is.
\<close>

definition is_float64 :: "float64 \<Rightarrow> bool" where
  "is_float64 f = (case f of Finite s m \<Rightarrow> 0 \<le> m \<and> round64 s m = Finite s m | _ \<Rightarrow> True)"




section \<open>Evaluation rules\<close>

lemma floor_rat_numeral [simp]:
  "\<lfloor>(numeral a :: rat) / numeral b\<rfloor> = numeral a div numeral b"
  using floor_divide_of_int_eq [of "numeral a" "numeral b", where ?'a = rat] by simp

lemma floor_rat_one_numeral [simp]:
  "\<lfloor>(1 :: rat) / numeral b\<rfloor> = 1 div numeral b"
  using floor_divide_of_int_eq [of 1 "numeral b", where ?'a = rat] by simp

lemma ceiling_rat_numeral [simp]:
  "\<lceil>(numeral a :: rat) / numeral b\<rceil> = - ((- numeral a) div numeral b)"
  using ceiling_divide_eq_div [of "numeral a" "numeral b", where ?'a = rat] by simp

lemma ceiling_rat_one_numeral [simp]:
  "\<lceil>(1 :: rat) / numeral b\<rceil> = - ((- 1) div numeral b)"
  using ceiling_divide_eq_div [of 1 "numeral b", where ?'a = rat] by simp

lemmas ev_round = round64_def ilog2_def roundHalfEven_def pow2_def Let_def compute_floorlog

lemmas ev_validate =
  validateExpression_def maxExpressionLength_def TrimSpace_is_empty_def
  validChars_MatchString_def byte_def IsSpace_def validChar_def RuneError_def

lemmas ev_parse =
  parseExpression_def remove_spaces_def operators_def splitAt_def signLoop.simps signAt_def
  times_sign_def division_sign_def ParseFloat_def parseDecimal_def isDigit_def
  isLetter_def digitsVal_def string_of_byte_def

lemmas ev_calc =
  Calculate_def NewCalculator_def isInf_def isNaN_def isZero_def zero64_def one64_def
  fsub_def signed_def int64_of_float64_def float64_of_int64_def Sprintf_0f_def
  digits10.simps Pow_def Signbit_def isInt_def isOddInt_def

section \<open>The result pair and the operation table\<close>

lemma opLoop_cases:
  "opLoop rt e ops = (a, op, b, err) \<Longrightarrow>
     (err = None \<and> op \<in> set ops) \<or>
     (err = Some NoOperatorFound \<and> op = [] \<and> a = zero64 \<and> b = zero64)"
  by (induction ops) (auto split: option.splits if_splits)

lemma supportedOps_operators:
  "op \<in> set operators \<Longrightarrow> supportedOps (NewCalculator rt) op \<noteq> None"
  by (auto simp: operators_def NewCalculator_def times_sign_def division_sign_def)

lemma supportedOps_error:
  "supportedOps (NewCalculator rt) op = Some f \<Longrightarrow> f a b = (r, Some err) \<Longrightarrow>
     err = DivisionByZero"
  by (auto simp: NewCalculator_def split: if_splits)

text \<open>
  Claim C10. Whenever \<open>Calculate\<close> returns an error, of any kind, the string it returns
  with it is empty; so a non-empty string comes only with a \<^verbatim>\<open>nil\<close> error. This holds for
  every operation table, not only the one of \<open>NewCalculator\<close>.
\<close>

theorem error_result_empty:
  "snd (Calculate rt c expr) \<noteq> None \<Longrightarrow> fst (Calculate rt c expr) = ''''"
  by (auto simp: Calculate_def split: option.splits prod.splits if_splits)

theorem error_result_empty_witness:
  "snd (Calculate example_runtime (NewCalculator example_runtime) ''1/0'') = Some DivisionByZero \<and>
   fst (Calculate example_runtime (NewCalculator example_runtime) ''1/0'') = ''''"
proof -
  have e: "snd (Calculate example_runtime (NewCalculator example_runtime) ''1/0'')
             = Some DivisionByZero"
    by (simp add: ev_validate ev_parse ev_round ev_calc)
  then have "snd (Calculate example_runtime (NewCalculator example_runtime) ''1/0'') \<noteq> None"
    by simp
  from error_result_empty [OF this] e show ?thesis by simp
qed

text \<open>
  Claim C9. The \<open>UnsupportedOperator\<close> branch is unreachable: when \<open>parseExpression\<close>
  succeeds, the operator it returns is one of the nine of \<open>operators\<close>, each of which is a
  key of the operation table, and \<open>Calculate\<close> never returns \<open>UnsupportedOperator\<close>.
\<close>

theorem UnsupportedOperator_unreachable:
  "(parseExpression rt expr = (a, op, b, None) \<longrightarrow>
      op \<in> set operators \<and> supportedOps (NewCalculator rt) op \<noteq> None) \<and>
   snd (Calculate rt (NewCalculator rt) expr) \<noteq> Some (UnsupportedOperator s)"
proof (intro conjI impI)
  assume p: "parseExpression rt expr = (a, op, b, None)"
  then show "op \<in> set operators"
    using opLoop_cases [of rt "remove_spaces expr" operators a op b None]
    by (simp add: parseExpression_def)
  then show "supportedOps (NewCalculator rt) op \<noteq> None"
    by (rule supportedOps_operators)
next
  show "snd (Calculate rt (NewCalculator rt) expr) \<noteq> Some (UnsupportedOperator s)"
  proof (cases "validateExpression expr")
    case (Some e)
    then show ?thesis
      by (auto simp: Calculate_def validateExpression_def split: if_splits)
  next
    case None
    obtain a' op' b' err where p: "parseExpression rt expr = (a', op', b', err)"
      by (metis prod_cases4)
    from p have c: "(err = None \<and> op' \<in> set operators) \<or> err = Some NoOperatorFound"
      using opLoop_cases [of rt "remove_spaces expr" operators a' op' b' err]
      by (auto simp: parseExpression_def)
    show ?thesis
    proof (cases err)
      case (Some e)
      with c p None show ?thesis by (simp add: Calculate_def)
    next
      case n: None
      with c obtain f where f: "supportedOps (NewCalculator rt) op' = Some f"
        using supportedOps_operators [of op' rt] by auto
      obtain r e where r: "f a' b' = (r, e)" by (cases "f a' b'")
      show ?thesis
      proof (cases e)
        case None
        with p n f r \<open>validateExpression expr = None\<close> show ?thesis
          by (simp add: Calculate_def)
      next
        case (Some e')
        with supportedOps_error [OF f] r have "e' = DivisionByZero" by simp
        with Some p n f r \<open>validateExpression expr = None\<close> show ?thesis
          by (simp add: Calculate_def)
      qed
    qed
  qed
qed

theorem UnsupportedOperator_unreachable_witness:
  "parseExpression example_runtime ''7%2'' = (Finite False 7, ''%'', Finite False 2, None) \<and>
   ''%'' \<in> set operators \<and>
   supportedOps (NewCalculator example_runtime) ''%'' \<noteq> None \<and>
   Calculate example_runtime (NewCalculator example_runtime) ''7%2'' = (''1'', None)"
proof -
  have p: "parseExpression example_runtime ''7%2''
             = (Finite False 7, ''%'', Finite False 2, None)"
    by (simp add: ev_parse ev_round byte_def)
  have c: "Calculate example_runtime (NewCalculator example_runtime) ''7%2'' = (''1'', None)"
    by (simp add: ev_validate ev_parse ev_round ev_calc)
  from UnsupportedOperator_unreachable
         [of example_runtime "''7%2''" "Finite False 7" "''%''" "Finite False 2"] p c
  show ?thesis by simp
qed

section \<open>Inputs that fail validation\<close>

text \<open>
  Claim C2, as the code has it. \<open>Calculate("abc")\<close> fails in \<open>validateExpression\<close>, which
  runs before the parser: the letters are outside the accepted characters, so the error
  is \<open>InvalidCharacters\<close>.
\<close>

theorem Calculate_abc:
  "Calculate rt (NewCalculator rt) ''abc'' = ('''', Some InvalidCharacters)"
  by (simp add: Calculate_def ev_validate)

theorem Calculate_abc_witness:
  "Calculate example_runtime (NewCalculator example_runtime) ''abc''
     = ('''', Some InvalidCharacters)"
  using Calculate_abc [of example_runtime] .

text \<open>The claim as stated, that the error is \<open>NoOperatorFound\<close>, fails.\<close>

theorem Calculate_abc_not_NoOperatorFound:
  "snd (Calculate example_runtime (NewCalculator example_runtime) ''abc'')
     \<noteq> Some NoOperatorFound"
  by (simp add: Calculate_def ev_validate)

section \<open>Where the parser splits\<close>

lemma signAt_Some:
  "signAt rt e op i = Some (a, b) \<Longrightarrow>
     string_of_byte (e ! i) = op \<and> (isDigit (e ! (i - 1)) \<or> e ! (i - 1) = CHR '')'') \<and>
     drop (i + 1) e \<noteq> [] \<and>
     ParseFloat rt (take i e) = Some a \<and> ParseFloat rt (drop (i + 1) e) = Some b"
  by (auto simp: signAt_def Let_def split: if_splits option.splits)

lemma signLoop_Some:
  "signLoop rt e op i = Some (a, b) \<Longrightarrow>
     \<exists>j\<ge>i. j < length e \<and> signAt rt e op j = Some (a, b)"
proof (induction rt e op i rule: signLoop.induct)
  case (1 rt expr op i)
  from "1.prems" have lt: "i < length expr"
    by (subst (asm) signLoop.simps) (simp split: if_splits)
  show ?case
  proof (cases "signAt rt expr op i")
    case None
    with "1.prems" lt have "signLoop rt expr op (i + 1) = Some (a, b)"
      by (subst (asm) signLoop.simps) simp
    from "1.IH" [OF lt None this] obtain j where "i + 1 \<le> j" "j < length expr"
      "signAt rt expr op j = Some (a, b)" by blast
    then show ?thesis by (intro exI [of _ j]) simp
  next
    case (Some ab)
    with "1.prems" lt have "signAt rt expr op i = Some (a, b)"
      by (subst (asm) signLoop.simps) simp
    with lt show ?thesis by blast
  qed
qed

lemma opLoop_split:
  "opLoop rt e ops = (a, op, b, None) \<Longrightarrow>
     op \<in> set ops \<and>
     (if op = ''-'' \<or> op = ''+'' then signLoop rt e op 1 else splitAt rt e op) = Some (a, b)"
  by (induction ops) (auto split: option.splits if_splits)

lemma string_of_byte_single: "string_of_byte c = [d] \<Longrightarrow> c = d"
  by (simp add: string_of_byte_def split: if_splits)

text \<open>
  Claim C1. A sign is not taken for the operator. \<open>Calculate("-5+3")\<close> is \<open>"-2"\<close> and
  \<open>Calculate("2*-3")\<close> is \<open>"-6"\<close>. In general, when \<open>parseExpression\<close> splits at a \<^verbatim>\<open>+\<close>
  or a \<^verbatim>\<open>-\<close>, the split is at a position \<open>j \<ge> 1\<close> of the expression without its spaces, so
  never at a leading sign, and the byte before it is a digit or a closing parenthesis, so
  never at a sign that follows another operator; the operands are what the two sides of
  that position parse to, signs included.
\<close>

theorem sign_is_not_operator:
  "Calculate rt (NewCalculator rt) ''-5+3'' = (''-2'', None) \<and>
   Calculate rt (NewCalculator rt) ''2*-3'' = (''-6'', None) \<and>
   (parseExpression rt expr = (a, op, b, None) \<and> (op = ''+'' \<or> op = ''-'') \<longrightarrow>
      (\<exists>j. 1 \<le> j \<and> j < length (remove_spaces expr) \<and> [remove_spaces expr ! j] = op \<and>
           (isDigit (remove_spaces expr ! (j - 1)) \<or> remove_spaces expr ! (j - 1) = CHR '')'') \<and>
           ParseFloat rt (take j (remove_spaces expr)) = Some a \<and>
           ParseFloat rt (drop (j + 1) (remove_spaces expr)) = Some b))"
proof (intro conjI impI)
  show "Calculate rt (NewCalculator rt) ''-5+3'' = (''-2'', None)"
    by (simp add: ev_validate ev_parse ev_round ev_calc)
  show "Calculate rt (NewCalculator rt) ''2*-3'' = (''-6'', None)"
    by (simp add: ev_validate ev_parse ev_round ev_calc)
next
  let ?e = "remove_spaces expr"
  assume h: "parseExpression rt expr = (a, op, b, None) \<and> (op = ''+'' \<or> op = ''-'')"
  then have "signLoop rt ?e op 1 = Some (a, b)"
    using opLoop_split [of rt ?e operators a op b] by (auto simp: parseExpression_def)
  from signLoop_Some [OF this] obtain j where j0: "1 \<le> j" "j < length ?e"
    "signAt rt ?e op j = Some (a, b)"
    by auto
  from signAt_Some [OF j0(3)] j0 have j: "1 \<le> j" "j < length ?e"
    "string_of_byte (?e ! j) = op"
    "isDigit (?e ! (j - 1)) \<or> ?e ! (j - 1) = CHR '')''"
    "ParseFloat rt (take j ?e) = Some a" "ParseFloat rt (drop (j + 1) ?e) = Some b"
    by auto
  from j(3) h have "[?e ! j] = op"
    by (auto dest: string_of_byte_single)
  with j show "\<exists>j. 1 \<le> j \<and> j < length ?e \<and> [?e ! j] = op \<and>
           (isDigit (?e ! (j - 1)) \<or> ?e ! (j - 1) = CHR '')'') \<and>
           ParseFloat rt (take j ?e) = Some a \<and> ParseFloat rt (drop (j + 1) ?e) = Some b"
    by blast
qed

theorem sign_is_not_operator_witness:
  "parseExpression example_runtime ''-5+3'' = (Finite True 5, ''+'', Finite False 3, None) \<and>
   (\<exists>j. 1 \<le> j \<and> j < length (remove_spaces ''-5+3'') \<and> [remove_spaces ''-5+3'' ! j] = ''+'' \<and>
        ParseFloat example_runtime (take j (remove_spaces ''-5+3'')) = Some (Finite True 5) \<and>
        ParseFloat example_runtime (drop (j + 1) (remove_spaces ''-5+3'')) = Some (Finite False 3))"
proof -
  have p: "parseExpression example_runtime ''-5+3''
             = (Finite True 5, ''+'', Finite False 3, None)"
    by (simp add: ev_parse ev_round byte_def)
  from sign_is_not_operator
         [of example_runtime "''-5+3''" "Finite True 5" "''+''" "Finite False 3"] p
  show ?thesis by blast
qed

section \<open>The operations and the checks on their result\<close>



text \<open>
  Claim C6. A result that is not finite is never returned: when the operation of a
  validated, parsed expression returns an infinity of either sign, \<open>Calculate\<close> fails with
  \<open>ResultTooLarge\<close>, and when it returns a NaN, with \<open>ResultNotANumber\<close>. This holds for
  every operation table.
\<close>

theorem non_finite_results:
  assumes "validateExpression expr = None"
    and "parseExpression rt expr = (a, op, b, None)"
    and "supportedOps c op = Some f"
    and "f a b = (result, None)"
  shows "(isInf result \<longrightarrow> Calculate rt c expr = ('''', Some ResultTooLarge)) \<and>
         (isNaN result \<longrightarrow> Calculate rt c expr = ('''', Some ResultNotANumber))"
  using assms by (auto simp: Calculate_def isInf_def isNaN_def)

theorem non_finite_results_witness:
  "Calculate example_runtime (NewCalculator example_runtime) ''0^-1'' = ('''', Some ResultTooLarge) \<and>
   Calculate example_runtime (NewCalculator example_runtime) ''-8^0.5''
     = ('''', Some ResultNotANumber)"
proof -
  let ?pow = "\<lambda>a b. (Pow example_runtime a b, None :: error option)"
  have v: "validateExpression ''0^-1'' = None" "validateExpression ''-8^0.5'' = None"
    by (simp_all add: ev_validate)
  have p: "parseExpression example_runtime ''0^-1'' = (Finite False 0, ''^'', Finite True 1, None)"
    "parseExpression example_runtime ''-8^0.5''
       = (Finite True 8, ''^'', Finite False (1 / 2), None)"
    by (simp_all add: ev_parse ev_round byte_def)
  have s: "supportedOps (NewCalculator example_runtime) ''^'' = Some ?pow"
    by (simp add: NewCalculator_def times_sign_def division_sign_def)
  have r: "?pow (Finite False 0) (Finite True 1) = (Infinite False, None)"
    "?pow (Finite True 8) (Finite False (1 / 2)) = (NaN, None)"
    by (simp_all add: ev_calc del: of_int_floor_cancel)
  from non_finite_results [OF v(1) p(1) s r(1)] non_finite_results [OF v(2) p(2) s r(2)]
  show ?thesis by (simp add: isInf_def isNaN_def)
qed

section \<open>The length limit\<close>

lemma TooLong_iff:
  "snd (Calculate rt (NewCalculator rt) expr) = Some TooLong \<longleftrightarrow> length expr > maxExpressionLength"
proof (cases "validateExpression expr")
  case (Some e)
  then show ?thesis
    by (auto simp: Calculate_def validateExpression_def split: if_splits)
next
  case None
  then have le: "\<not> length expr > maxExpressionLength"
    by (auto simp: validateExpression_def split: if_splits)
  obtain a op b err where p: "parseExpression rt expr = (a, op, b, err)"
    by (metis prod_cases4)
  from p have c: "err = None \<or> err = Some NoOperatorFound"
    using opLoop_cases [of rt "remove_spaces expr" operators a op b err]
    by (auto simp: parseExpression_def)
  have "snd (Calculate rt (NewCalculator rt) expr) \<noteq> Some TooLong"
    using None p c supportedOps_error [of rt op _ a b]
    by (auto simp: Calculate_def split: option.splits prod.splits)
  with le show ?thesis by simp
qed

text \<open>
  Claim C3. \<open>validateExpression\<close> compares \<^verbatim>\<open>len(expr)\<close>, the number of bytes, with 100,
  before its other checks, and nothing else in \<open>Calculate\<close> fails with \<open>TooLong\<close>
  (\<open>TooLong_iff\<close>). The multiplication and the division sign take two bytes each: an
  expression of 100 characters, one of them a multiplication sign, is 101 bytes long and
  fails with \<open>TooLong\<close>, although its length in characters does not exceed 100.
\<close>

theorem TooLong_counts_bytes:
  "RuneCountInString
     (''11111111111111111111111111111111111111111111111111'' @ times_sign @
      ''1111111111111111111111111111111111111111111111111'') = 100 \<and>
   ValidString
     (''11111111111111111111111111111111111111111111111111'' @ times_sign @
      ''1111111111111111111111111111111111111111111111111'') \<and>
   Calculate rt (NewCalculator rt)
     (''11111111111111111111111111111111111111111111111111'' @ times_sign @
      ''1111111111111111111111111111111111111111111111111'') = ('''', Some TooLong)"
  by (simp add: RuneCountInString_def Calculate_def ev_validate times_sign_def)

section \<open>Parentheses\<close>

text \<open>What a decoding step consumes: one ASCII byte, one ill-formed byte, or a lead byte and
  its continuation bytes, none of them ASCII.\<close>

lemma list_upto3:
  "s = [] \<or> (\<exists>a. s = [a]) \<or> (\<exists>a b. s = [a, b]) \<or> (\<exists>a b c t. s = a # b # c # t)"
  by (cases s; simp) (metis list.exhaust)

lemma DecodeRuneInString_shape:
  assumes "DecodeRuneInString (c # s) = (r, w)"
  shows "(byte c < 0x80 \<and> r = byte c \<and> w = 1) \<or>
         (0x80 \<le> byte c \<and> r = RuneError \<and> w = 1) \<or>
         (0x80 \<le> byte c \<and> 2 \<le> w \<and> w - 1 \<le> length s \<and>
            (\<forall>d\<in>set (take (w - 1) s). 0x80 \<le> byte d))"
  using assms list_upto3 [of s]
  by (auto simp: Let_def split: if_splits)


lemma validChar_RuneError: "\<not> validChar RuneError"
  by (simp add: validChar_def RuneError_def)

lemma validChars_bytes:
  "list_all validChar (runes e) \<Longrightarrow>
     \<forall>c\<in>set e. (byte c < 0x80 \<and> validChar (byte c)) \<or> 0x80 \<le> byte c"
proof (induction e rule: runes.induct)
  case 1
  then show ?case by simp
next
  case (2 c s)
  obtain r w where d: "DecodeRuneInString (c # s) = (r, w)"
    by (cases "DecodeRuneInString (c # s)")
  with "2.prems" have v: "validChar r" and rest: "list_all validChar (runes (drop (w - 1) s))"
    by simp_all
  from "2.IH" [OF d [symmetric] rest]
  have ih: "\<forall>x\<in>set (drop (w - 1) s). (byte x < 0x80 \<and> validChar (byte x)) \<or> 0x80 \<le> byte x" .
  have split: "set s = set (take (w - 1) s) \<union> set (drop (w - 1) s)"
    by (metis append_take_drop_id set_append)
  from DecodeRuneInString_shape [OF d] v validChar_RuneError
  consider (ascii) "byte c < 0x80" "r = byte c" "w = 1"
    | (multi) "0x80 \<le> byte c" "\<forall>d\<in>set (take (w - 1) s). 0x80 \<le> byte d"
    by auto
  then show ?case
  proof cases
    case ascii
    with v ih show ?thesis by simp
  next
    case multi
    with ih split show ?thesis by auto
  qed
qed

lemma validated_no_letters:
  assumes "validateExpression expr = None" and "c \<in> set expr"
  shows "\<not> isLetter c \<and> c \<noteq> CHR ''_''"
proof -
  from assms(1) have "list_all validChar (runes expr)"
    by (simp add: validateExpression_def validChars_MatchString_def split: if_splits)
  from validChars_bytes [OF this] assms(2)
  have "(byte c < 0x80 \<and> validChar (byte c)) \<or> 0x80 \<le> byte c" by blast
  then show ?thesis
    by (auto simp: isLetter_def validChar_def byte_def)
qed

lemma parseDecimal_chars:
  assumes "parseDecimal s = Some x" and "c \<in> set s"
  shows "isDigit c \<or> c = CHR ''+'' \<or> c = CHR ''-'' \<or> c = CHR ''.''"
proof -
  define sb where "sb = (case s of [] \<Rightarrow> (False, []) | c # t \<Rightarrow>
      if c = CHR ''+'' then (False, t) else if c = CHR ''-'' then (True, t) else (False, s))"
  define rest where "rest = dropWhile isDigit (snd sb)"
  define ft where "ft = (case rest of [] \<Rightarrow> ([], []) | c # t \<Rightarrow>
      if c = CHR ''.'' then (takeWhile isDigit t, dropWhile isDigit t) else ([], rest))"
  from assms(1) have t: "snd ft = []"
    unfolding parseDecimal_def sb_def rest_def ft_def
    by (simp add: Let_def case_prod_beta split: if_splits)
  have b: "snd sb = takeWhile isDigit (snd sb) @ rest"
    by (simp add: rest_def)
  have r: "\<forall>d\<in>set rest. isDigit d \<or> d = CHR ''.''"
  proof (cases rest)
    case Nil
    then show ?thesis by simp
  next
    case (Cons d u)
    with t have "d = CHR ''.''" "dropWhile isDigit u = []"
      by (auto simp: ft_def split: if_splits)
    with Cons show ?thesis by (auto simp: dropWhile_eq_Nil_conv)
  qed
  have "\<forall>d\<in>set (snd sb). isDigit d \<or> d = CHR ''.''"
    using r b by (metis Un_iff set_append set_takeWhileD)
  moreover have "c \<in> set (snd sb) \<or> c = CHR ''+'' \<or> c = CHR ''-''"
    using assms(2) by (auto simp: sb_def split: list.splits if_splits)
  ultimately show ?thesis by blast
qed

lemma ParseFloat_no_parenthesis:
  assumes "ParseFloat rt s = Some x"
    and "\<forall>c\<in>set s. \<not> isLetter c \<and> c \<noteq> CHR ''_''"
  shows "CHR ''('' \<notin> set s \<and> CHR '')'' \<notin> set s"
proof -
  from assms have "parseDecimal s = Some x"
    by (auto simp: ParseFloat_def list_ex_iff)
  from parseDecimal_chars [OF this, of "CHR ''(''"] parseDecimal_chars [OF this, of "CHR '')''"]
  show ?thesis
    by (auto simp: isDigit_def byte_def)
qed

lemma Index_split:
  "Index s sep = i \<Longrightarrow> 0 \<le> i \<Longrightarrow> s = take (nat i) s @ sep @ drop (nat i + length sep) s"
proof (induction s arbitrary: i)
  case Nil
  then show ?case by (simp split: if_splits)
next
  case (Cons c s)
  show ?case
  proof (cases "take (length sep) (c # s) = sep")
    case True
    with Cons.prems have "i = 0" by simp
    with True show ?thesis by (metis append_Nil append_take_drop_id nat_0 add_0 take_0)
  next
    case False
    with Cons.prems have i: "0 \<le> Index s sep" "i = Index s sep + 1"
      by (auto simp: Let_def split: if_splits)
    from Cons.IH [OF refl i(1)] i show ?thesis
      by (simp add: nat_add_distrib)
  qed
qed

lemma splitAt_Some:
  "splitAt rt e op = Some (a, b) \<Longrightarrow>
     \<exists>l r. e = l @ op @ r \<and> ParseFloat rt l = Some a \<and> ParseFloat rt r = Some b"
proof -
  assume h: "splitAt rt e op = Some (a, b)"
  then have i: "0 < Index e op"
    and l: "ParseFloat rt (take (nat (Index e op)) e) = Some a"
    and r: "ParseFloat rt (drop (nat (Index e op) + length op) e) = Some b"
    by (auto simp: splitAt_def Let_def split: if_splits option.splits)
  from Index_split [OF refl, of e op] i
  have "e = take (nat (Index e op)) e @ op @ drop (nat (Index e op) + length op) e" by simp
  with l r show ?thesis by blast
qed

lemma opLoop_Some_split:
  assumes "opLoop rt e ops = (a, op, b, None)"
  shows "\<exists>l r. e = l @ op @ r \<and> ParseFloat rt l = Some a \<and> ParseFloat rt r = Some b"
proof (cases "op = ''-'' \<or> op = ''+''")
  case True
  with opLoop_split [OF assms] have "signLoop rt e op 1 = Some (a, b)" by simp
  from signLoop_Some [OF this] obtain j where j: "j < length e" "signAt rt e op j = Some (a, b)"
    by blast
  from signAt_Some [OF j(2)] True have "[e ! j] = op"
    and pf: "ParseFloat rt (take j e) = Some a" "ParseFloat rt (drop (j + 1) e) = Some b"
    by (auto dest: string_of_byte_single)
  with id_take_nth_drop [OF j(1)] have "e = take j e @ op @ drop (j + 1) e" by auto
  with pf show ?thesis by blast
next
  case False
  with opLoop_split [OF assms] have "splitAt rt e op = Some (a, b)" by simp
  then show ?thesis by (rule splitAt_Some)
qed

lemma operators_no_parenthesis:
  "op \<in> set operators \<Longrightarrow> CHR ''('' \<notin> set op \<and> CHR '')'' \<notin> set op"
  by (auto simp: operators_def times_sign_def division_sign_def)

text \<open>
  Claim C7. An input that passes validation and holds a parenthesis fails in the parser,
  with \<open>NoOperatorFound\<close>: the validator accepts both parentheses, but no split of the
  expression has two sides that parse as numbers. It does not fail with
  \<open>InvalidCharacters\<close> and it does not succeed, whatever the operation table.
\<close>

theorem parentheses_NoOperatorFound:
  assumes "validateExpression expr = None"
    and "CHR ''('' \<in> set expr \<or> CHR '')'' \<in> set expr"
  shows "Calculate rt c expr = ('''', Some NoOperatorFound)"
proof -
  let ?e = "remove_spaces expr"
  obtain a op b err where p: "opLoop rt ?e operators = (a, op, b, err)"
    by (metis prod_cases4)
  have "err \<noteq> None"
  proof
    assume "err = None"
    with p opLoop_cases [OF p] have ok: "opLoop rt ?e operators = (a, op, b, None)"
      and op: "op \<in> set operators" by auto
    from opLoop_Some_split [OF ok] obtain l r where
      e: "?e = l @ op @ r" and l: "ParseFloat rt l = Some a" and r: "ParseFloat rt r = Some b"
      by blast
    have "set ?e \<subseteq> set expr"
      by (simp add: remove_spaces_def)
    with e have sub: "set l \<subseteq> set expr" "set r \<subseteq> set expr"
      by auto
    then have "\<forall>c\<in>set l. \<not> isLetter c \<and> c \<noteq> CHR ''_''"
      "\<forall>c\<in>set r. \<not> isLetter c \<and> c \<noteq> CHR ''_''"
      using validated_no_letters [OF assms(1)] by blast+
    with l r have "CHR ''('' \<notin> set l \<and> CHR '')'' \<notin> set l"
      "CHR ''('' \<notin> set r \<and> CHR '')'' \<notin> set r"
      by (simp_all add: ParseFloat_no_parenthesis)
    with operators_no_parenthesis [OF op]
    have "CHR ''('' \<notin> set (l @ op @ r) \<and> CHR '')'' \<notin> set (l @ op @ r)"
      by simp
    with e have "CHR ''('' \<notin> set ?e \<and> CHR '')'' \<notin> set ?e"
      by simp
    with assms(2) show False by (simp add: remove_spaces_def)
  qed
  with opLoop_cases [OF p] have "parseExpression rt expr = (a, op, b, Some NoOperatorFound)"
    using p by (auto simp: parseExpression_def)
  with assms(1) show ?thesis by (simp add: Calculate_def)
qed

theorem parentheses_NoOperatorFound_witness:
  "validateExpression ''(2)+3'' = None \<and>
   Calculate example_runtime (NewCalculator example_runtime) ''(2)+3''
     = ('''', Some NoOperatorFound)"
proof -
  have v: "validateExpression ''(2)+3'' = None"
    by (simp add: ev_validate)
  from parentheses_NoOperatorFound [OF v] v show ?thesis by simp
qed

section \<open>Spaces and other white space\<close>

text \<open>
  A step of the decoder that consumes more than one byte reads only those bytes, none of
  which is a space, and yields a code point from \<open>0x80\<close> on.
\<close>

lemma DecodeRuneInString_facts:
  assumes "DecodeRuneInString (c # s) = (r, w)" and "2 \<le> w"
  shows "0xC2 \<le> byte c" and "byte c \<le> 0xF4"
    and "w = (if byte c < 0xE0 then 2 else if byte c < 0xF0 then 3 else 4)"
    and "w - 1 \<le> length s"
    and "(if byte c = 0xE0 then 0xA0 else if byte c = 0xF0 then 0x90 else 0x80) \<le> byte (s ! 0)"
    and "byte (s ! 0) \<le> (if byte c = 0xED then 0x9F else if byte c = 0xF4 then 0x8F else 0xBF)"
    and "3 \<le> w \<longrightarrow> 0x80 \<le> byte (s ! 1) \<and> byte (s ! 1) \<le> 0xBF"
    and "4 \<le> w \<longrightarrow> 0x80 \<le> byte (s ! 2) \<and> byte (s ! 2) \<le> 0xBF"
  using assms
  by (simp_all add: Let_def Suc_le_eq split: if_splits)

lemma DecodeRuneInString_prefix:
  assumes "DecodeRuneInString (c # s) = (r, w)" and "2 \<le> w"
  shows "DecodeRuneInString (c # take (w - 1) s @ t) = (r, w)"
proof -
  note f = DecodeRuneInString_facts [OF assms]
  have n: "\<And>i. i < w - 1 \<Longrightarrow> (take (w - 1) s @ t) ! i = s ! i"
    using f(4) by (simp add: nth_append)
  from f(3) have w: "w = 2 \<or> w = 3 \<or> w = 4" by (auto split: if_splits)
  have l: "w \<le> length (c # take (w - 1) s @ t)"
    using f(4) assms(2) by simp
  from w show ?thesis
  proof (elim disjE)
    assume "w = 2"
    with assms f n [of 0] l show ?thesis
      by (simp add: Let_def split: if_splits)
  next
    assume "w = 3"
    with assms f n [of 0] n [of 1] l show ?thesis
      by (simp add: Let_def split: if_splits)
  next
    assume "w = 4"
    with assms f n [of 0] n [of 1] n [of 2] l show ?thesis
      by (simp add: Let_def split: if_splits)
  qed
qed

lemma mod_window:
  fixes n :: nat
  assumes "q * b \<le> n" and "n < q * b + b"
  shows "n mod b = n - q * b"
proof -
  define k where "k = n - q * b"
  from assms have n: "n = q * b + k" and k: "k < b" by (simp_all add: k_def)
  have "n mod b = k mod b" unfolding n by simp
  with k show ?thesis by (simp add: k_def)
qed

lemma DecodeRuneInString_multibyte_rune:
  assumes "DecodeRuneInString (c # s) = (r, w)" and "2 \<le> w"
  shows "0x80 \<le> r"
proof -
  note f = DecodeRuneInString_facts [OF assms]
  from f(3) have w: "w = 2 \<or> w = 3 \<or> w = 4" by (simp split: if_splits)
  then show ?thesis
  proof (elim disjE)
    assume w2: "w = 2"
    with f(3) have lt: "byte c < 0xE0" by (simp split: if_splits)
    from assms(1) w2 have "r = (byte c mod 0x20) * 0x40 + byte (s ! 0) mod 0x40"
      by (simp add: Let_def split: if_splits)
    moreover have "byte c mod 0x20 = byte c - 6 * 0x20"
      using f(1) lt by (intro mod_window) simp_all
    ultimately show ?thesis using f(1) by simp
  next
    assume w3: "w = 3"
    with f(3) have b: "0xE0 \<le> byte c" "byte c < 0xF0" by (simp_all split: if_splits)
    from assms(1) w3 have r: "r = (byte c mod 0x10) * 0x1000 + (byte (s ! 0) mod 0x40) * 0x40
        + byte (s ! 1) mod 0x40"
      by (simp add: Let_def split: if_splits)
    show ?thesis
    proof (cases "byte c = 0xE0")
      case True
      with f(5,6) have "0xA0 \<le> byte (s ! 0)" "byte (s ! 0) \<le> 0xBF" by simp_all
      then have "byte (s ! 0) mod 0x40 = byte (s ! 0) - 2 * 0x40"
        by (intro mod_window) simp_all
      with r \<open>0xA0 \<le> byte (s ! 0)\<close> show ?thesis by simp
    next
      case False
      have "byte c mod 0x10 = byte c - 14 * 0x10"
        using b by (intro mod_window) simp_all
      with r b False show ?thesis by simp
    qed
  next
    assume w4: "w = 4"
    with f(3) have b: "0xF0 \<le> byte c" by (simp split: if_splits)
    from assms(1) w4 have r: "r = (byte c mod 8) * 0x40000 + (byte (s ! 0) mod 0x40) * 0x1000
        + (byte (s ! 1) mod 0x40) * 0x40 + byte (s ! 2) mod 0x40"
      by (simp add: Let_def split: if_splits)
    show ?thesis
    proof (cases "byte c = 0xF0")
      case True
      with f(5,6) have lo: "0x90 \<le> byte (s ! 0)" "byte (s ! 0) \<le> 0xBF" by simp_all
      then have "byte (s ! 0) mod 0x40 = byte (s ! 0) - 2 * 0x40"
        by (intro mod_window) simp_all
      with lo have "0x10 \<le> byte (s ! 0) mod 0x40" by simp
      then have "0x10 * 0x1000 \<le> (byte (s ! 0) mod 0x40) * 0x1000"
        by (rule mult_le_mono1)
      with r show ?thesis by linarith
    next
      case False
      have "byte c mod 8 = byte c - 30 * 8"
        using b f(2) by (intro mod_window) simp_all
      with b False have "1 \<le> byte c mod 8" by simp
      then have "1 * 0x40000 \<le> (byte c mod 8) * 0x40000"
        by (rule mult_le_mono1)
      with r show ?thesis by linarith
    qed
  qed
qed

text \<open>
  In well-formed UTF-8, deleting the space bytes deletes the code points U+0020 and
  leaves the others as they are.
\<close>

lemma byte_space: "byte c = 0x20 \<longleftrightarrow> c = CHR '' ''"
proof
  assume "byte c = 0x20"
  then have "of_char c = (of_char (CHR '' '') :: nat)" by (simp add: byte_def)
  then show "c = CHR '' ''" by (simp only: of_char_eq_iff)
qed (simp add: byte_def)

lemma remove_spaces_multibyte:
  assumes "\<forall>d\<in>set p. 0x80 \<le> byte d"
  shows "remove_spaces (p @ s) = p @ remove_spaces s"
proof -
  have "filter (\<lambda>c. c \<noteq> CHR '' '') p = p"
    using assms by (intro filter_True) (auto simp: byte_def)
  then show ?thesis by (simp add: remove_spaces_def)
qed

lemma runes_remove_spaces:
  "ValidString e \<Longrightarrow> runes (remove_spaces e) = filter (\<lambda>r. r \<noteq> 0x20) (runes e)"
proof (induction e rule: runes.induct)
  case 1
  then show ?case by (simp add: remove_spaces_def)
next
  case (2 c s)
  obtain r w where d: "DecodeRuneInString (c # s) = (r, w)"
    by (cases "DecodeRuneInString (c # s)")
  with "2.prems" have ok: "\<not> (r = RuneError \<and> w = 1)" and v: "ValidString (drop (w - 1) s)"
    by simp_all
  from "2.IH" [OF d [symmetric] v]
  have ih: "runes (remove_spaces (drop (w - 1) s))
              = filter (\<lambda>r. r \<noteq> 0x20) (runes (drop (w - 1) s))" .
  from DecodeRuneInString_shape [OF d] ok
  consider (ascii) "byte c < 0x80" "r = byte c" "w = 1"
    | (multi) "0x80 \<le> byte c" "2 \<le> w" "w - 1 \<le> length s"
        "\<forall>d\<in>set (take (w - 1) s). 0x80 \<le> byte d"
    by auto
  then show ?case
  proof cases
    case ascii
    show ?thesis
    proof (cases "c = CHR '' ''")
      case True
      with ascii d ih show ?thesis
        by (simp add: remove_spaces_def byte_def)
    next
      case False
      with ascii have "r \<noteq> 0x20" by (simp add: byte_space)
      moreover have "DecodeRuneInString (c # remove_spaces s) = (byte c, 1)"
        using ascii by (simp add: Let_def)
      ultimately show ?thesis
        using False ascii d ih by (simp add: remove_spaces_def)
    qed
  next
    case multi
    let ?p = "c # take (w - 1) s"
    have "\<forall>d\<in>set ?p. 0x80 \<le> byte d"
      using multi by simp
    from remove_spaces_multibyte [OF this, of "drop (w - 1) s"]
    have rs: "remove_spaces (c # s) = c # take (w - 1) s @ remove_spaces (drop (w - 1) s)"
      by simp
    have dec: "DecodeRuneInString (c # take (w - 1) s @ remove_spaces (drop (w - 1) s)) = (r, w)"
      using d multi(2) by (rule DecodeRuneInString_prefix)
    have r: "r \<noteq> 0x20"
      using DecodeRuneInString_multibyte_rune [OF d multi(2)] by simp
    have "runes (remove_spaces (c # s)) = r # runes (remove_spaces (drop (w - 1) s))"
      unfolding rs using dec multi(3) by simp
    also have "\<dots> = filter (\<lambda>r. r \<noteq> 0x20) (runes (c # s))"
      using d r ih by simp
    finally show ?thesis .
  qed
qed

lemma validateExpression_remove_spaces:
  assumes "length expr \<le> maxExpressionLength" and "ValidString expr"
  shows "validateExpression (remove_spaces expr) = validateExpression expr"
proof -
  let ?rs = "runes expr"
  have r: "runes (remove_spaces expr) = filter (\<lambda>r. r \<noteq> 0x20) ?rs"
    using assms(2) by (rule runes_remove_spaces)
  have len: "length (remove_spaces expr) \<le> maxExpressionLength"
    using assms(1) by (simp add: remove_spaces_def le_trans [OF length_filter_le])
  have sp: "TrimSpace_is_empty (remove_spaces expr) = TrimSpace_is_empty expr"
    unfolding TrimSpace_is_empty_def r by (auto simp: list_all_iff IsSpace_def)
  have vc: "\<not> TrimSpace_is_empty expr \<Longrightarrow>
      validChars_MatchString (remove_spaces expr) = validChars_MatchString expr"
  proof -
    assume "\<not> TrimSpace_is_empty expr"
    then obtain x where x: "x \<in> set ?rs" "\<not> IsSpace x"
      by (auto simp: TrimSpace_is_empty_def list_all_iff)
    then have "x \<noteq> 0x20" by (auto simp: IsSpace_def)
    with x have "filter (\<lambda>r. r \<noteq> 0x20) ?rs \<noteq> []" "?rs \<noteq> []"
      by (auto simp: filter_empty_conv)
    then show ?thesis
      unfolding validChars_MatchString_def r by (auto simp: list_all_iff validChar_def)
  qed
  from len assms(1) sp vc show ?thesis
    by (auto simp: validateExpression_def)
qed

lemma parseExpression_remove_spaces:
  "parseExpression rt (remove_spaces expr) = parseExpression rt expr"
  by (simp add: parseExpression_def remove_spaces_def)

text \<open>
  Claim C4, as the code has it. \<open>parseExpression\<close> deletes the spaces (U+0020) of the
  expression and nothing else: for every well-formed UTF-8 input of at most 100 bytes,
  \<open>Calculate\<close> returns on the input what it returns on the input without its spaces, the
  same string and the same error. This holds for every operation table.
\<close>

theorem Calculate_remove_spaces:
  assumes "length expr \<le> maxExpressionLength" and "ValidString expr"
  shows "Calculate rt c (remove_spaces expr) = Calculate rt c expr"
  unfolding Calculate_def validateExpression_remove_spaces [OF assms]
    parseExpression_remove_spaces
  by (rule refl)

theorem Calculate_remove_spaces_witness:
  "length '' 2 +  3 '' \<le> maxExpressionLength \<and> ValidString '' 2 +  3 '' \<and>
   remove_spaces '' 2 +  3 '' = ''2+3'' \<and>
   Calculate example_runtime (NewCalculator example_runtime) '' 2 +  3 '' = (''5'', None)"
proof -
  have l: "length '' 2 +  3 '' \<le> maxExpressionLength"
    by (simp add: maxExpressionLength_def)
  have v: "ValidString '' 2 +  3 ''"
    by (simp add: byte_def RuneError_def)
  have c: "Calculate example_runtime (NewCalculator example_runtime) ''2+3'' = (''5'', None)"
    by (simp add: ev_validate ev_parse ev_round ev_calc)
  have r: "remove_spaces '' 2 +  3 '' = ''2+3''"
    by (simp add: remove_spaces_def)
  from Calculate_remove_spaces [OF l v, of example_runtime "NewCalculator example_runtime"] l v c r
  show ?thesis by simp
qed

text \<open>
  The claim as stated, for every character of the validator's class \<^verbatim>\<open>\s\<close>, fails at a
  tab: \<open>"2\t+3"\<close> passes validation and then fails to parse, while \<open>"2+3"\<close> gives
  \<open>"5"\<close>.
\<close>

theorem Calculate_tab_not_stripped:
  "length [CHR ''2'', CHR 0x09, CHR ''+'', CHR ''3''] \<le> maxExpressionLength \<and>
   validChar (byte (CHR 0x09)) \<and>
   filter (\<lambda>c. c \<noteq> CHR 0x09) [CHR ''2'', CHR 0x09, CHR ''+'', CHR ''3''] = ''2+3'' \<and>
   Calculate example_runtime (NewCalculator example_runtime)
     [CHR ''2'', CHR 0x09, CHR ''+'', CHR ''3''] = ('''', Some NoOperatorFound) \<and>
   Calculate example_runtime (NewCalculator example_runtime) ''2+3'' = (''5'', None)"
  by (simp add: ev_validate ev_parse ev_round ev_calc)

section \<open>The rounding and the values of \<^verbatim>\<open>float64\<close>\<close>

text \<open>
  The exponent that \<open>ilog2\<close> computes is the binary exponent, rounding is idempotent,
  and the arithmetic of the model stays within the values that binary64 represents.
\<close>

lemma roundHalfEven_of_int: "roundHalfEven (of_int k) = k"
  by (simp add: roundHalfEven_def)

lemma pow2_nonneg: "0 \<le> k \<Longrightarrow> pow2 k = 2 ^ nat k"
  by (simp add: pow2_def)

lemma pow2_neg: "k \<le> 0 \<Longrightarrow> pow2 k = 1 / 2 ^ nat (- k)"
  by (cases "k = 0") (simp_all add: pow2_def)

lemma ilog2_bounds:
  assumes "0 < q"
  shows "pow2 (ilog2 q) \<le> q \<and> q < pow2 (ilog2 q + 1)"
proof (cases "1 \<le> q")
  case True
  define n where "n = nat \<lfloor>q\<rfloor>"
  define L where "L = floorlog 2 n"
  from True have n1: "1 \<le> n" by (simp add: n_def le_nat_iff)
  then have b: "2 ^ (L - 1) \<le> n" "n < 2 ^ L"
    using floorlog_bounds [of n 2] by (simp_all add: L_def)
  from n1 have L1: "1 \<le> L"
    by (simp add: L_def floorlog_def)
  have i: "ilog2 q = int L - 1"
    using True by (simp add: ilog2_def L_def n_def)
  have nq: "of_nat n \<le> q" "q < of_nat n + 1"
    using True floor_correct [of q] by (simp_all add: n_def)
  have "pow2 (int L - 1) = 2 ^ (L - 1)"
    using L1 by (simp add: pow2_nonneg nat_diff_distrib)
  also have "\<dots> \<le> (of_nat n :: rat)"
    using b(1) by (metis of_nat_le_iff of_nat_numeral of_nat_power)
  finally have lo: "pow2 (ilog2 q) \<le> q"
    using nq(1) i by simp
  from b(2) have "n + 1 \<le> 2 ^ L" by simp
  then have "(of_nat (n + 1) :: rat) \<le> 2 ^ L"
    by (metis of_nat_le_iff of_nat_numeral of_nat_power)
  then have "(of_nat n :: rat) + 1 \<le> 2 ^ L"
    by (simp only: of_nat_add of_nat_1)
  with nq(2) have "q < 2 ^ L" by linarith
  then have hi: "q < pow2 (ilog2 q + 1)"
    by (simp add: i pow2_nonneg)
  from lo hi show ?thesis ..
next
  case False
  define x where "x = 1 / q"
  define c where "c = \<lceil>x\<rceil>"
  define n where "n = nat (c - 1)"
  define L where "L = floorlog 2 n"
  from False assms have x1: "1 < x" by (simp add: x_def)
  then have c2: "2 \<le> c" unfolding c_def by (simp add: le_ceiling_iff)
  then have n1: "1 \<le> n" by (simp add: n_def)
  then have b: "2 ^ (L - 1) \<le> n" "n < 2 ^ L"
    using floorlog_bounds [of n 2] by (simp_all add: L_def)
  from n1 have L1: "1 \<le> L"
    by (simp add: L_def floorlog_def)
  have i: "ilog2 q = - int L"
    using False by (simp add: ilog2_def L_def n_def c_def x_def)
  have cx: "of_int c - 1 < x" "x \<le> of_int c"
    unfolding c_def by (simp_all add: ceiling_correct)
  have nc: "(of_nat n :: rat) = of_int c - 1"
    using c2 by (simp add: n_def)
  have "(2 :: rat) ^ (L - 1) \<le> of_nat n"
    using b(1) by (metis of_nat_le_iff of_nat_numeral of_nat_power)
  with cx(1) nc have xlo: "2 ^ (L - 1) < x" by linarith
  from b(2) have "n + 1 \<le> 2 ^ L" by simp
  then have "(of_nat (n + 1) :: rat) \<le> 2 ^ L"
    by (metis of_nat_le_iff of_nat_numeral of_nat_power)
  then have "(of_nat n :: rat) + 1 \<le> 2 ^ L"
    by (simp only: of_nat_add of_nat_1)
  with cx(2) nc have xhi: "x \<le> 2 ^ L" by linarith
  have qx: "1 / x = q" by (simp add: x_def)
  have xpos: "0 < x" using x1 by simp
  have lo: "pow2 (ilog2 q) \<le> q"
  proof -
    have "pow2 (- int L) = 1 / 2 ^ L" by (simp add: pow2_neg)
    also have "\<dots> \<le> 1 / x"
      using xhi xpos by (simp add: frac_le)
    finally show ?thesis by (simp only: i qx)
  qed
  have hi: "q < pow2 (ilog2 q + 1)"
  proof -
    have "1 / x < 1 / 2 ^ (L - 1)"
      using xlo by (simp add: frac_less2)
    also have "\<dots> = pow2 (- int L + 1)"
      using L1 by (simp add: pow2_neg nat_diff_distrib)
    finally show ?thesis by (simp only: i qx)
  qed
  from lo hi show ?thesis ..
qed

lemma pow2_powi: "pow2 k = 2 powi k"
  by (simp add: pow2_def power_int_def power_one_over inverse_eq_divide)

lemma pow2_pos: "0 < pow2 k"
  by (simp add: pow2_powi)

lemma pow2_add: "pow2 (a + b) = pow2 a * pow2 b"
  by (simp add: pow2_powi power_int_add)

lemma pow2_numeral: "pow2 (numeral k) = 2 ^ numeral k"
  by (simp add: pow2_def)

lemma pow2_52: "pow2 e = 2 ^ 52 * pow2 (e - 52)"
proof -
  have "pow2 e = pow2 (52 + (e - 52))"
    by (rule arg_cong [where f = pow2]) simp
  also have "\<dots> = pow2 52 * pow2 (e - 52)" by (rule pow2_add)
  finally show ?thesis by (simp only: pow2_numeral)
qed

lemma pow2_53: "pow2 (e + 1) = 2 ^ 53 * pow2 (e - 52)"
proof -
  have "pow2 (e + 1) = pow2 (53 + (e - 52))"
    by (rule arg_cong [where f = pow2]) simp
  also have "\<dots> = pow2 53 * pow2 (e - 52)" by (rule pow2_add)
  finally show ?thesis by (simp only: pow2_numeral)
qed

lemma pow2_next: "pow2 (e - 51) = 2 * pow2 (e - 52)"
proof -
  have "pow2 (e - 51) = pow2 (1 + (e - 52))"
    by (rule arg_cong [where f = pow2]) simp
  also have "\<dots> = pow2 1 * pow2 (e - 52)" by (rule pow2_add)
  finally show ?thesis by (simp add: pow2_def)
qed

lemma pow2_mono: "a \<le> b \<Longrightarrow> pow2 a \<le> pow2 b"
  by (simp add: pow2_powi power_int_increasing)

lemma pow2_strict_mono: "a < b \<Longrightarrow> pow2 a < pow2 b"
  by (simp add: pow2_powi power_int_strict_increasing)

lemma pow2_less_cancel: "pow2 a < pow2 b \<Longrightarrow> a < b"
  using pow2_mono [of b a] by (cases "a < b") auto

lemma ilog2_unique:
  assumes "pow2 k \<le> x" and "x < pow2 (k + 1)"
  shows "ilog2 x = k"
proof -
  from assms(1) pow2_pos [of k] have "0 < x" by simp
  from ilog2_bounds [OF this] have b: "pow2 (ilog2 x) \<le> x" "x < pow2 (ilog2 x + 1)"
    by simp_all
  from b(1) assms(2) have "pow2 (ilog2 x) < pow2 (k + 1)" by simp
  then have "ilog2 x < k + 1" by (rule pow2_less_cancel)
  moreover from assms(1) b(2) have "pow2 k < pow2 (ilog2 x + 1)" by simp
  then have "k < ilog2 x + 1" by (rule pow2_less_cancel)
  ultimately show ?thesis by simp
qed

lemma roundHalfEven_lower: "of_int k \<le> x \<Longrightarrow> k \<le> roundHalfEven x"
proof -
  assume "of_int k \<le> x"
  then have "k \<le> \<lfloor>x\<rfloor>" by (simp add: le_floor_iff)
  then show ?thesis by (simp add: roundHalfEven_def Let_def)
qed

lemma roundHalfEven_upper: "x \<le> of_int k \<Longrightarrow> roundHalfEven x \<le> k"
proof -
  assume h: "x \<le> of_int k"
  have f: "of_int \<lfloor>x\<rfloor> \<le> x" by simp
  from f h have "(of_int \<lfloor>x\<rfloor> :: rat) \<le> of_int k" by (rule order_trans)
  then have fk: "\<lfloor>x\<rfloor> \<le> k" by (simp only: of_int_le_iff)
  show ?thesis
  proof (cases "x - of_int \<lfloor>x\<rfloor> < 1 / 2")
    case True
    with fk show ?thesis by (simp add: roundHalfEven_def Let_def)
  next
    case False
    then have "of_int \<lfloor>x\<rfloor> < x" by simp
    from this h have "(of_int \<lfloor>x\<rfloor> :: rat) < of_int k" by (rule less_le_trans)
    then have "\<lfloor>x\<rfloor> < k" by (simp only: of_int_less_iff)
    then show ?thesis by (simp add: roundHalfEven_def Let_def)
  qed
qed

text \<open>A positive multiple of the unit in the last place, of at most 53 bits, is a
  fixed point of the rounding.\<close>

lemma round64_multiple:
  assumes "- 1022 \<le> e" and "0 < n" and "n \<le> 2 ^ 53"
    and "e = - 1022 \<or> 2 ^ 52 \<le> n"
    and "\<not> pow2 1024 \<le> of_int n * pow2 (e - 52)"
  shows "round64 t (of_int n * pow2 (e - 52)) = Finite t (of_int n * pow2 (e - 52))"
proof -
  let ?u = "pow2 (e - 52)"
  let ?m = "of_int n * ?u"
  have u: "0 < ?u" by (rule pow2_pos)
  with assms(2) have m: "0 < ?m" by simp
  note p52 = pow2_52 [of e] and p53 = pow2_53 [of e]
  have fixed: "max (ilog2 ?m) (- 1022) = e \<Longrightarrow> ?thesis"
  proof -
    assume "max (ilog2 ?m) (- 1022) = e"
    moreover have "?m / ?u = of_int n" using u by simp
    ultimately show ?thesis
      using m assms(5) by (simp add: round64_def Let_def roundHalfEven_of_int)
  qed
  show ?thesis
  proof (cases "n = 2 ^ 53")
    case True
    then have me: "?m = pow2 (e + 1)" by (simp add: p53)
    have "ilog2 ?m = e + 1"
      unfolding me by (rule ilog2_unique) (simp_all add: pow2_strict_mono)
    with assms(1) have mx: "max (ilog2 ?m) (- 1022) = e + 1" by simp
    note u2 = pow2_next [of e]
    have "?m / pow2 (e - 51) = of_int (2 ^ 52)"
      using u by (simp add: u2 True)
    then have "roundHalfEven (?m / pow2 (e - 51)) = 2 ^ 52"
      by (simp only: roundHalfEven_of_int)
    then have "of_int (roundHalfEven (?m / pow2 (e - 51))) * pow2 (e - 51) = ?m"
      by (simp add: u2 True)
    with m mx assms(5) show ?thesis
      by (simp add: round64_def Let_def)
  next
    case False
    with assms(3) have lt: "n < 2 ^ 53" by simp
    then have "(of_int n :: rat) < of_int (2 ^ 53)" by (simp only: of_int_less_iff)
    then have hi: "?m < pow2 (e + 1)"
      using u by (simp add: p53)
    show ?thesis
    proof (cases "2 ^ 52 \<le> n")
      case True
      then have "(of_int (2 ^ 52) :: rat) \<le> of_int n" by (simp only: of_int_le_iff)
      then have "pow2 e \<le> ?m" using u by (simp add: p52)
      from ilog2_unique [OF this hi] assms(1) show ?thesis
        by (intro fixed) simp
    next
      case False
      with assms(4) have e: "e = - 1022" by simp
      from False have "(of_int n :: rat) < of_int (2 ^ 52)" by (simp only: of_int_less_iff)
      then have "?m < pow2 e" using u by (simp add: p52)
      moreover from ilog2_bounds [OF m] have "pow2 (ilog2 ?m) \<le> ?m" by simp
      ultimately have "pow2 (ilog2 ?m) < pow2 e" by simp
      then have "ilog2 ?m < e" by (rule pow2_less_cancel)
      with e show ?thesis by (intro fixed) simp
    qed
  qed
qed

lemma round64_idem:
  assumes "0 \<le> q" and "round64 s q = Finite s' m"
  shows "round64 t m = Finite t m \<and> 0 \<le> m"
proof (cases "q = 0")
  case True
  with assms(2) show ?thesis by (simp add: round64_def)
next
  case False
  with assms(1) have q: "0 < q" by simp
  define e where "e = max (ilog2 q) (- 1022)"
  define n where "n = roundHalfEven (q / pow2 (e - 52))"
  let ?u = "pow2 (e - 52)"
  have u: "0 < ?u" by (rule pow2_pos)
  from assms(2) False have m: "m = of_int n * ?u" and nov: "\<not> pow2 1024 \<le> of_int n * ?u"
    by (simp_all add: round64_def Let_def e_def n_def split: if_splits)
  have e: "- 1022 \<le> e" by (simp add: e_def)
  note p52 = pow2_52 [of e] and p53 = pow2_53 [of e]
  from ilog2_bounds [OF q] have b: "pow2 (ilog2 q) \<le> q" "q < pow2 (ilog2 q + 1)"
    by simp_all
  have "pow2 (ilog2 q + 1) \<le> pow2 (e + 1)"
    by (rule pow2_mono) (simp add: e_def)
  with b(2) have "q < 2 ^ 53 * ?u" by (simp add: p53)
  then have "q / ?u \<le> of_int (2 ^ 53)"
    using u by (simp add: pos_divide_le_eq)
  then have n53: "n \<le> 2 ^ 53" unfolding n_def by (rule roundHalfEven_upper)
  have "of_int 0 \<le> q / ?u" using q u by simp
  then have n0: "0 \<le> n" unfolding n_def by (rule roundHalfEven_lower)
  have n52: "e = - 1022 \<or> 2 ^ 52 \<le> n"
  proof (cases "e = - 1022")
    case False
    then have "e = ilog2 q" by (simp add: e_def max_def split: if_splits)
    with b(1) have "pow2 e \<le> q" by simp
    have "2 ^ 52 * ?u = pow2 e" by (rule p52 [symmetric])
    also have "\<dots> \<le> q" by fact
    finally have "2 ^ 52 * ?u \<le> q" .
    then have "of_int (2 ^ 52) \<le> q / ?u"
      using u by (simp add: pos_le_divide_eq)
    then have "2 ^ 52 \<le> n" unfolding n_def by (rule roundHalfEven_lower)
    then show ?thesis ..
  qed simp
  show ?thesis
  proof (cases "n = 0")
    case True
    then show ?thesis by (simp add: m round64_def)
  next
    case False
    with n0 have "0 < n" by simp
    from round64_multiple [OF e this n53 n52 nov] u n0 show ?thesis
      by (simp add: m)
  qed
qed





lemma is_float64_sign:
  assumes "is_float64 (Finite s m)"
  shows "is_float64 (Finite t m)"
proof -
  from assms have m: "0 \<le> m" "round64 s m = Finite s m"
    by (simp_all add: is_float64_def)
  from round64_idem [OF this, of t] show ?thesis
    by (simp add: is_float64_def)
qed


lemma is_float64_special: "is_float64 NaN" "is_float64 (Infinite s)"
  by (simp_all add: is_float64_def)

lemma is_float64_fneg:
  assumes "is_float64 a"
  shows "is_float64 (fneg a)"
proof (cases a)
  case (Finite s m)
  with assms is_float64_sign [of s m "\<not> s"] show ?thesis by simp
qed (simp_all add: is_float64_special)






section \<open>Formatting the result\<close>


















end
